theory Spec2Isabelle
  imports Main "HOL-Library.Char_ord" "HOL-Library.List_Lexorder" "HOL-Library.Multiset"
begin

section \<open>The merge-cluster modal of Panoptic (MergeClusterModal.vue)\<close>

text \<open>
  The script part of \<^verbatim>\<open>src/panoptic_front/src/components/modals/MergeClusterModal.vue\<close>
  is embedded function by function. Record fields carry a prefix naming their interface
  (\<open>p_id\<close> is \<^verbatim>\<open>Property.id\<close>, \<open>i_id\<close> is \<^verbatim>\<open>Instance.id\<close>, \<open>o_key\<close> is
  \<^verbatim>\<open>MergeOption.key\<close>, ...), since the interfaces share field names.
\<close>

subsection \<open>Property values\<close>

text \<open>
  A property value has the TypeScript type \<^verbatim>\<open>any\<close>. The functions of the component
  tell apart \<^verbatim>\<open>undefined\<close>, \<^verbatim>\<open>null\<close>, arrays, \<^verbatim>\<open>Date\<close> objects and other scalars.
  A value is a scalar or a flat array of scalars. Numbers are integers (identifiers,
  counts). A \<^verbatim>\<open>Date\<close> is a valid date, given by the two renderings the component can
  observe: \<^verbatim>\<open>toISOString()\<close> and \<^verbatim>\<open>toString()\<close>. Strings are byte strings.
\<close>

record JSDate =
  toISOString :: string
  toString :: string

datatype jsprim =
    PUndefined
  | PNull
  | PBool bool
  | PNum int
  | PStr string
  | PDate JSDate

datatype jsval =
    Prim jsprim
  | Arr "jsprim list"

text \<open>The test \<^verbatim>\<open>value === undefined || value === null\<close> and its negation.\<close>

definition is_absent :: "jsval \<Rightarrow> bool" where
  "is_absent v = (v = Prim PUndefined \<or> v = Prim PNull)"

definition is_defined :: "jsval \<Rightarrow> bool" where
  "is_defined v = (v \<noteq> Prim PUndefined \<and> v \<noteq> Prim PNull)"

subsection \<open>The JavaScript built-ins the component calls\<close>

definition digit_char :: "nat \<Rightarrow> char" where
  "digit_char n = ''0123456789abcdef'' ! (n mod 16)"

function string_of_nat :: "nat \<Rightarrow> string" where
  "string_of_nat n =
     (if n < 10 then [digit_char n] else string_of_nat (n div 10) @ [digit_char (n mod 10)])"
  by pat_completeness auto
termination
  by (relation "measure (\<lambda>n. n)") auto

declare string_of_nat.simps [simp del]

text \<open>\<^verbatim>\<open>String(n)\<close> for an integer \<open>n\<close>: decimal digits, with a minus sign below zero.\<close>

definition string_of_int :: "int \<Rightarrow> string" where
  "string_of_int i =
     (if i < 0 then CHR ''-'' # string_of_nat (nat (- i)) else string_of_nat (nat i))"

text \<open>\<^verbatim>\<open>String(x)\<close> on a scalar.\<close>

fun js_String :: "jsprim \<Rightarrow> string" where
  "js_String PUndefined = ''undefined''"
| "js_String PNull = ''null''"
| "js_String (PBool b) = (if b then ''true'' else ''false'')"
| "js_String (PNum n) = string_of_int n"
| "js_String (PStr s) = s"
| "js_String (PDate d) = toString d"

text \<open>\<^verbatim>\<open>Array.prototype.join\<close>: an \<^verbatim>\<open>undefined\<close> or \<^verbatim>\<open>null\<close> element gives the empty string.\<close>

fun join :: "string \<Rightarrow> string list \<Rightarrow> string" where
  "join sep [] = []"
| "join sep [x] = x"
| "join sep (x # y # ys) = x @ sep @ join sep (y # ys)"

definition join_elem :: "jsprim \<Rightarrow> string" where
  "join_elem x = (if x = PUndefined \<or> x = PNull then [] else js_String x)"

definition array_join :: "string \<Rightarrow> jsprim list \<Rightarrow> string" where
  "array_join sep xs = join sep (map join_elem xs)"

text \<open>
  \<^verbatim>\<open>Array.prototype.sort()\<close> with no comparator: \<^verbatim>\<open>undefined\<close> elements go last, the
  others are ordered by their \<^verbatim>\<open>String\<close> text, code unit by code unit; the sort is stable.
\<close>

definition js_sort :: "jsprim list \<Rightarrow> jsprim list" where
  "js_sort xs =
     sort_key js_String (filter (\<lambda>x. x \<noteq> PUndefined) xs) @ filter (\<lambda>x. x = PUndefined) xs"

text \<open>\<^verbatim>\<open>JSON.stringify\<close>: a quoted string escapes the quote, the backslash and control characters.\<close>

definition json_escape :: "char \<Rightarrow> string" where
  "json_escape c =
     (if c = CHR 0x22 then [CHR 0x5C, CHR 0x22]
      else if c = CHR 0x5C then [CHR 0x5C, CHR 0x5C]
      else if c = CHR 0x08 then [CHR 0x5C, CHR ''b'']
      else if c = CHR 0x09 then [CHR 0x5C, CHR ''t'']
      else if c = CHR 0x0A then [CHR 0x5C, CHR ''n'']
      else if c = CHR 0x0C then [CHR 0x5C, CHR ''f'']
      else if c = CHR 0x0D then [CHR 0x5C, CHR ''r'']
      else if (of_char c :: nat) < 32
        then [CHR 0x5C, CHR ''u'', CHR ''0'', CHR ''0'',
              digit_char (of_char c div 16), digit_char (of_char c mod 16)]
      else [c])"

definition json_quote :: "string \<Rightarrow> string" where
  "json_quote s = CHR 0x22 # concat (map json_escape s) @ [CHR 0x22]"

text \<open>
  \<^verbatim>\<open>JSON.stringify\<close> of a scalar standing in an array, where \<^verbatim>\<open>undefined\<close> is written
  \<^verbatim>\<open>null\<close> and a \<^verbatim>\<open>Date\<close> is written through \<^verbatim>\<open>toJSON\<close>, its quoted ISO text.
\<close>

fun json_prim :: "jsprim \<Rightarrow> string" where
  "json_prim PUndefined = ''null''"
| "json_prim PNull = ''null''"
| "json_prim (PBool b) = (if b then ''true'' else ''false'')"
| "json_prim (PNum n) = string_of_int n"
| "json_prim (PStr s) = json_quote s"
| "json_prim (PDate d) = json_quote (toISOString d)"

definition json_array :: "jsprim list \<Rightarrow> string" where
  "json_array xs = CHR ''['' # join '','' (map json_prim xs) @ '']''"

text \<open>The truth value of a scalar in a conditional (\<^verbatim>\<open>value ? a : b\<close>).\<close>

fun truthy :: "jsprim \<Rightarrow> bool" where
  "truthy PUndefined = False"
| "truthy PNull = False"
| "truthy (PBool b) = b"
| "truthy (PNum n) = (n \<noteq> 0)"
| "truthy (PStr s) = (s \<noteq> [])"
| "truthy (PDate d) = True"

subsection \<open>The data model\<close>

text \<open>
  Modelled from the spec: the enumerations \<^verbatim>\<open>PropertyType\<close> and \<^verbatim>\<open>PropertyMode\<close> and the
  interfaces \<^verbatim>\<open>Property\<close>, \<^verbatim>\<open>Instance\<close>, \<^verbatim>\<open>DbCommit\<close>, \<^verbatim>\<open>InstancePropertyValue\<close> and
  \<^verbatim>\<open>ImagePropertyValue\<close> are imported from \<^verbatim>\<open>@/data/models\<close>, which is not among the
  sources. The types are the ones the spec lists: free text, numeric, single-tag,
  multi-tag, checkbox, color and date, and the derived types folder, identity, content
  hash, perceptual hash, width and height; the fields are the ones the component reads.
  \<open>PM_id\<close> is the per-instance scope, \<open>PM_sha1\<close> the per-entity scope.
\<close>

datatype PropertyType =
    PT_string
  | PT_number
  | PT_tag
  | PT_multi_tags
  | PT_checkbox
  | PT_color
  | PT_date
  | PT_folders
  | PT_id
  | PT_sha1
  | PT_ahash
  | PT_width
  | PT_height

datatype PropertyMode = PM_id | PM_sha1

record Property =
  p_id :: int
  p_name :: string
  p_type :: PropertyType
  p_mode :: PropertyMode
  p_computed :: bool

record Instance =
  i_id :: int
  i_sha1 :: string
  i_name :: string
  i_properties :: "int \<rightharpoonup> jsval"

record InstancePropertyValue =
  ipv_propertyId :: int
  ipv_instanceId :: int
  ipv_value :: jsval

record ImagePropertyValue =
  imv_propertyId :: int
  imv_sha1 :: string
  imv_value :: jsval

record DbCommit =
  instances :: "Instance list"
  instanceValues :: "InstancePropertyValue list"
  imageValues :: "ImagePropertyValue list"

text \<open>
  Modelled from the spec: \<^verbatim>\<open>isTag\<close> is imported from \<^verbatim>\<open>@/utils/utils\<close>, which is not
  among the sources; the spec calls tag-typed the single-tag and the multi-tag types.
\<close>

definition isTag :: "PropertyType \<Rightarrow> bool" where
  "isTag ty = (ty = PT_tag \<or> ty = PT_multi_tags)"

text \<open>The interfaces the component declares itself.\<close>

record MergeOption =
  o_key :: string
  o_value :: jsval
  o_sourceImageId :: "int option"

record MergeRow =
  r_property :: Property
  r_options :: "MergeOption list"
  r_conflict :: bool

text \<open>\<^verbatim>\<open>img.properties[property.id]\<close>: a missing entry reads as \<^verbatim>\<open>undefined\<close>.\<close>

definition prop_value :: "Instance \<Rightarrow> int \<Rightarrow> jsval" where
  "prop_value img k = (case i_properties img k of None \<Rightarrow> Prim PUndefined | Some v \<Rightarrow> v)"

subsection \<open>stringifyValue and formatValue\<close>

fun stringifyValue :: "jsval \<Rightarrow> Property \<Rightarrow> string" where
  "stringifyValue (Prim PUndefined) property = ''__undefined__''"
| "stringifyValue (Prim PNull) property = ''__undefined__''"
| "stringifyValue (Arr xs) property = json_array (js_sort xs)"
| "stringifyValue (Prim (PDate d)) property = toISOString d"
| "stringifyValue (Prim x) property =
     (if p_type property = PT_color then js_String x else json_prim x)"

text \<open>
  The localisation function \<^verbatim>\<open>t\<close> of vue-i18n is a parameter of every function that
  reaches it.
\<close>

fun formatValue :: "(string \<Rightarrow> string) \<Rightarrow> jsval \<Rightarrow> Property \<Rightarrow> string" where
  "formatValue t (Prim PUndefined) property = []"
| "formatValue t (Prim PNull) property = []"
| "formatValue t (Arr xs) property = array_join '', '' xs"
| "formatValue t (Prim (PDate d)) property = toISOString d"
| "formatValue t (Prim x) property =
     (if p_type property = PT_checkbox
      then (if truthy x then t ''common.yes'' else t ''common.no'')
      else js_String x)"

subsection \<open>combineValues\<close>

text \<open>
  \<^verbatim>\<open>Set.prototype.add\<close> on a set kept in insertion order, as \<^verbatim>\<open>Array.from\<close> reads it
  back. Membership is equality of scalars (a JavaScript set tells two \<^verbatim>\<open>Date\<close> objects
  apart by identity; tag identifiers are numbers or strings).
\<close>

definition set_add :: "jsprim list \<Rightarrow> jsprim \<Rightarrow> jsprim list" where
  "set_add merged x = (if x \<in> set merged then merged else merged @ [x])"

definition merge_value :: "jsprim list \<Rightarrow> jsval \<Rightarrow> jsprim list" where
  "merge_value merged v = (case v of Arr ids \<Rightarrow> foldl set_add merged ids | Prim x \<Rightarrow> set_add merged x)"

definition combineValues :: "(string \<Rightarrow> string) \<Rightarrow> jsval list \<Rightarrow> Property \<Rightarrow> jsval" where
  "combineValues t vals property =
     (let defined = filter is_defined vals in
      if defined = [] then Prim PUndefined
      else if isTag (p_type property) then Arr (foldl merge_value [] defined)
      else Prim (PStr (join '' -- '' (map (\<lambda>v. formatValue t v property) defined))))"

subsection \<open>buildRows\<close>

text \<open>The filter of lines 139-140 on the property list.\<close>

definition mergeable :: "Property \<Rightarrow> bool" where
  "mergeable p =
     (p_id p > 0 \<and> \<not> p_computed p \<and>
      p_type p \<notin> set [PT_folders, PT_id, PT_sha1, PT_ahash, PT_width, PT_height])"

text \<open>
  One turn of the loop over the properties (lines 143-165): \<open>None\<close> is \<^verbatim>\<open>continue\<close>,
  otherwise the row pushed and the selection map after the assignment of line 164.
\<close>

definition build_row ::
  "(string \<Rightarrow> string) \<Rightarrow> Instance list \<Rightarrow> (int \<rightharpoonup> string) \<Rightarrow> Property
     \<Rightarrow> (MergeRow \<times> (int \<rightharpoonup> string)) option" where
  "build_row t groupImages selectedOptions property =
     (let vals = map (\<lambda>img. prop_value img (p_id property)) groupImages in
      if \<not> list_ex is_defined vals then None
      else
        let options0 = concat (map (\<lambda>img.
                if is_absent (prop_value img (p_id property)) then []
                else [\<lparr>o_key = string_of_int (i_id img),
                       o_value = prop_value img (p_id property),
                       o_sourceImageId = Some (i_id img)\<rparr>]) groupImages);
            definedKeys = map (\<lambda>v. stringifyValue v property) (filter is_defined vals);
            conflict = (length (remdups definedKeys) > 1);
            options = (if conflict
                       then options0 @ [\<lparr>o_key = ''combined'',
                                         o_value = combineValues t vals property,
                                         o_sourceImageId = None\<rparr>]
                       else options0)
        in case options of
             [] \<Rightarrow> None
           | first # _ \<Rightarrow>
               let defaultKey = (case selectedOptions (p_id property) of
                                   Some k \<Rightarrow> k
                                 | None \<Rightarrow> if conflict then ''combined'' else o_key first)
               in Some (\<lparr>r_property = property, r_options = options, r_conflict = conflict\<rparr>,
                        selectedOptions(p_id property \<mapsto> defaultKey)))"

fun rows_loop ::
  "(string \<Rightarrow> string) \<Rightarrow> Instance list \<Rightarrow> Property list \<Rightarrow> (int \<rightharpoonup> string)
     \<Rightarrow> MergeRow list \<times> (int \<rightharpoonup> string)" where
  "rows_loop t groupImages [] selectedOptions = ([], selectedOptions)"
| "rows_loop t groupImages (property # properties) selectedOptions =
     (case build_row t groupImages selectedOptions property of
        None \<Rightarrow> rows_loop t groupImages properties selectedOptions
      | Some (row, selectedOptions') \<Rightarrow>
          (case rows_loop t groupImages properties selectedOptions' of
             (rows, selectedOptions'') \<Rightarrow> (row # rows, selectedOptions'')))"

text \<open>
  \<open>buildRows\<close> on the images of the cluster, the property list of the data store and the
  selection map: the new value of \<^verbatim>\<open>mergeRows\<close> and the selection map it leaves.
\<close>

definition buildRows ::
  "(string \<Rightarrow> string) \<Rightarrow> Instance list \<Rightarrow> Property list \<Rightarrow> (int \<rightharpoonup> string)
     \<Rightarrow> MergeRow list \<times> (int \<rightharpoonup> string)" where
  "buildRows t groupImages propertyList selectedOptions =
     (if groupImages = [] then ([], selectedOptions)
      else rows_loop t groupImages (filter mergeable propertyList) selectedOptions)"

subsection \<open>confirmMerge\<close>

text \<open>The option a row resolves to: \<^verbatim>\<open>row.options.find(o => o.key === key)\<close>.\<close>

definition selected_option :: "(int \<rightharpoonup> string) \<Rightarrow> MergeRow \<Rightarrow> MergeOption option" where
  "selected_option selectedOptions row =
     (case selectedOptions (p_id (r_property row)) of
        None \<Rightarrow> None
      | Some k \<Rightarrow> find (\<lambda>opt. o_key opt = k) (r_options row))"

text \<open>The loop of lines 180-200, which pushes onto the two value lists of the commit.\<close>

fun commit_loop :: "Instance \<Rightarrow> (int \<rightharpoonup> string) \<Rightarrow> MergeRow list \<Rightarrow> DbCommit \<Rightarrow> DbCommit" where
  "commit_loop newInstance selectedOptions [] commit = commit"
| "commit_loop newInstance selectedOptions (row # rows) commit =
     (case selected_option selectedOptions row of
        None \<Rightarrow> commit_loop newInstance selectedOptions rows commit
      | Some opt \<Rightarrow>
          if is_absent (o_value opt) then commit_loop newInstance selectedOptions rows commit
          else if p_mode (r_property row) = PM_id
          then commit_loop newInstance selectedOptions rows
                 (commit\<lparr>instanceValues := instanceValues commit @
                    [\<lparr>ipv_propertyId = p_id (r_property row),
                      ipv_instanceId = i_id newInstance,
                      ipv_value = o_value opt\<rparr>]\<rparr>)
          else commit_loop newInstance selectedOptions rows
                 (commit\<lparr>imageValues := imageValues commit @
                    [\<lparr>imv_propertyId = p_id (r_property row),
                      imv_sha1 = i_sha1 newInstance,
                      imv_value = o_value opt\<rparr>]\<rparr>))"

text \<open>Lines 177-200: the commit built from the base image, the rows and the selection.\<close>

definition build_commit :: "Instance \<Rightarrow> MergeRow list \<Rightarrow> (int \<rightharpoonup> string) \<Rightarrow> DbCommit" where
  "build_commit baseImage rows selectedOptions =
     (let newInstance = baseImage\<lparr>i_id := - 1\<rparr> in
      commit_loop newInstance selectedOptions rows
        \<lparr>instances = [newInstance], instanceValues = [], imageValues = []\<rparr>)"

text \<open>
  The resolution of a row in the words of the spec (Commit Builder, step 2): look up the
  selection of the row's property and find the matching option; if no option matches, or
  the option's value is absent, the row resolves to nothing.
\<close>

definition resolved_value :: "(int \<rightharpoonup> string) \<Rightarrow> MergeRow \<Rightarrow> jsval option" where
  "resolved_value selection row =
     (case selection (p_id (r_property row)) of
        None \<Rightarrow> None
      | Some k \<Rightarrow>
          (case filter (\<lambda>opt. o_key opt = k) (r_options row) of
             [] \<Rightarrow> None
           | opt # _ \<Rightarrow> if is_defined (o_value opt) then Some (o_value opt) else None))"

subsection \<open>The component's state and its events\<close>

text \<open>
  The reactive state of the component, with the two collaborators it reaches:
  \<open>propertyList\<close> is \<^verbatim>\<open>data.propertyList\<close>; \<open>pending\<close> holds the commits handed to
  \<^verbatim>\<open>data.sendCommit\<close> whose promise has not settled yet, oldest first; \<open>hideModal_calls\<close>
  counts the calls of \<^verbatim>\<open>panoptic.hideModal\<close>.
\<close>

record state =
  selectedImageId :: "int option"
  mergeRows :: "MergeRow list"
  selectedOptions :: "int \<rightharpoonup> string"
  merging :: bool
  error_msg :: "string option"
  groupData :: "Instance list option"
  propertyList :: "Property list"
  pending :: "DbCommit list"
  hideModal_calls :: nat

definition images :: "state \<Rightarrow> Instance list" where
  "images st = (case groupData st of None \<Rightarrow> [] | Some imgs \<Rightarrow> imgs)"

definition baseImage :: "state \<Rightarrow> Instance option" where
  "baseImage st =
     (case find (\<lambda>img. Some (i_id img) = selectedImageId st) (images st) of
        Some img \<Rightarrow> Some img
      | None \<Rightarrow> (case images st of [] \<Rightarrow> None | img # _ \<Rightarrow> Some img))"

definition resetState :: "state \<Rightarrow> state" where
  "resetState st = st\<lparr>mergeRows := [], error_msg := None, selectedOptions := Map.empty\<rparr>"

definition buildRows_st :: "(string \<Rightarrow> string) \<Rightarrow> state \<Rightarrow> state" where
  "buildRows_st t st =
     (case buildRows t (images st) (propertyList st) (selectedOptions st) of
        (rows, sel) \<Rightarrow> st\<lparr>mergeRows := rows, selectedOptions := sel\<rparr>)"

text \<open>\<open>onShow\<close>, with the images of the modal's payload (\<^verbatim>\<open>payload?.images ?? []\<close>).\<close>

definition onShow :: "(string \<Rightarrow> string) \<Rightarrow> Instance list \<Rightarrow> state \<Rightarrow> state" where
  "onShow t payload st =
     buildRows_st t (resetState (st\<lparr>groupData := Some payload,
        selectedImageId := (case payload of [] \<Rightarrow> None | img # _ \<Rightarrow> Some (i_id img))\<rparr>))"

definition onHide :: "state \<Rightarrow> state" where
  "onHide st = (resetState st)\<lparr>groupData := None\<rparr>"

text \<open>
  \<open>confirmMerge\<close> is an \<^verbatim>\<open>async\<close> function with one \<^verbatim>\<open>await\<close>. \<open>confirmMerge_begin\<close>
  is the part that runs when it is called, up to the call of \<^verbatim>\<open>data.sendCommit\<close>
  (lines 172-202); \<open>confirmMerge_resume\<close> is the part that runs when the promise has
  settled, fulfilled (\<open>ok\<close>) or rejected (lines 203-209).
\<close>

definition confirmMerge_begin :: "state \<Rightarrow> state" where
  "confirmMerge_begin st =
     (case baseImage st of
        None \<Rightarrow> st
      | Some base \<Rightarrow>
          st\<lparr>merging := True, error_msg := None,
             pending := pending st @ [build_commit base (mergeRows st) (selectedOptions st)]\<rparr>)"

definition confirmMerge_resume :: "(string \<Rightarrow> string) \<Rightarrow> bool \<Rightarrow> state \<Rightarrow> state" where
  "confirmMerge_resume t ok st =
     (if ok then st\<lparr>hideModal_calls := Suc (hideModal_calls st), merging := False\<rparr>
      else st\<lparr>error_msg := Some (t ''modals.merge_cluster.error''), merging := False\<rparr>)"

text \<open>
  The confirm control of the template is bound to \<open>confirmMerge\<close> by
  \<^verbatim>\<open>@click="confirmMerge"\<close> and carries the class \<^verbatim>\<open>disabled\<close> under the binding
  \<^verbatim>\<open>:class="{ disabled: merging || !baseImage }"\<close>.
\<close>

definition confirm_disabled :: "state \<Rightarrow> bool" where
  "confirm_disabled st = (merging st \<or> baseImage st = None)"

subsection \<open>Tag identifiers\<close>

text \<open>
  A tag is named by an identifier, a number (or a string, as in the examples of the
  spec); a sequence of identifiers holds numbers only or strings only.
\<close>

fun is_number :: "jsprim \<Rightarrow> bool" where
  "is_number (PNum n) = True"
| "is_number x = False"

fun is_text :: "jsprim \<Rightarrow> bool" where
  "is_text (PStr s) = True"
| "is_text x = False"

definition identifiers :: "jsprim list \<Rightarrow> bool" where
  "identifiers xs = (list_all is_number xs \<or> list_all is_text xs)"

text \<open>
  A tag value is a single identifier or a sequence of identifiers; \<open>value_ids\<close> lists the
  identifiers a value refers to.
\<close>

definition is_identifier :: "jsprim \<Rightarrow> bool" where
  "is_identifier x = (is_number x \<or> is_text x)"

fun tag_value :: "jsval \<Rightarrow> bool" where
  "tag_value (Prim x) = is_identifier x"
| "tag_value (Arr xs) = list_all is_identifier xs"

fun value_ids :: "jsval \<Rightarrow> jsprim list" where
  "value_ids (Prim x) = [x]"
| "value_ids (Arr xs) = xs"

text \<open>
  The union in the words of the spec: duplicates removed, first-seen order preserved.
\<close>

fun first_seen :: "'a list \<Rightarrow> 'a list" where
  "first_seen [] = []"
| "first_seen (x # xs) = x # first_seen (filter (\<lambda>y. y \<noteq> x) xs)"

text \<open>
  The text of \<^verbatim>\<open>toISOString()\<close> is \<^verbatim>\<open>YYYY-MM-DDTHH:mm:ss.sssZ\<close>, or a sign and six
  year digits for a year outside 0 to 9999: it starts with a digit or a sign.
\<close>

definition iso_text :: "string \<Rightarrow> bool" where
  "iso_text s = (case s of [] \<Rightarrow> False | c # _ \<Rightarrow> c \<in> set ''0123456789+-'')"

fun dates_wf :: "jsval \<Rightarrow> bool" where
  "dates_wf (Prim (PDate d)) = iso_text (toISOString d)"
| "dates_wf v = True"

text \<open>A member with its entry for property \<open>k\<close> removed, so that the entry is missing.\<close>

definition null_to_missing :: "int \<Rightarrow> Instance \<Rightarrow> Instance" where
  "null_to_missing k m = m\<lparr>i_properties := (i_properties m)(k := None)\<rparr>"

subsection \<open>A small cluster\<close>

text \<open>
  Two images and four properties: a free text stored per content hash, a multi-tag and a
  color stored per instance, and the derived width.
\<close>

definition ex_name :: Property where
  "ex_name = \<lparr>p_id = 1, p_name = ''name'', p_type = PT_string, p_mode = PM_sha1, p_computed = False\<rparr>"

definition ex_tags :: Property where
  "ex_tags = \<lparr>p_id = 2, p_name = ''tags'', p_type = PT_multi_tags, p_mode = PM_id, p_computed = False\<rparr>"

definition ex_width :: Property where
  "ex_width = \<lparr>p_id = 3, p_name = ''width'', p_type = PT_width, p_mode = PM_sha1, p_computed = False\<rparr>"

definition ex_color :: Property where
  "ex_color = \<lparr>p_id = 4, p_name = ''color'', p_type = PT_color, p_mode = PM_id, p_computed = False\<rparr>"

definition ex_img1 :: Instance where
  "ex_img1 = \<lparr>i_id = 1, i_sha1 = ''h1'', i_name = ''one'',
     i_properties = [1 \<mapsto> Prim (PStr ''A''), 2 \<mapsto> Arr [PNum 1, PNum 2]]\<rparr>"

definition ex_img2 :: Instance where
  "ex_img2 = \<lparr>i_id = 2, i_sha1 = ''h2'', i_name = ''two'',
     i_properties = [1 \<mapsto> Prim (PStr ''B''), 2 \<mapsto> Arr [PNum 2, PNum 3], 3 \<mapsto> Prim (PNum 640)]\<rparr>"

definition ex_img3 :: Instance where
  "ex_img3 = \<lparr>i_id = 3, i_sha1 = ''h3'', i_name = ''three'',
     i_properties = [2 \<mapsto> Arr [PStr ''a'', PStr ''b'']]\<rparr>"

definition ex_img4 :: Instance where
  "ex_img4 = \<lparr>i_id = 4, i_sha1 = ''h4'', i_name = ''four'',
     i_properties = [2 \<mapsto> Arr [PStr ''b'', PStr ''a'']]\<rparr>"

definition ex_img5 :: Instance where
  "ex_img5 = \<lparr>i_id = 5, i_sha1 = ''h5'', i_name = ''five'',
     i_properties = [1 \<mapsto> Prim (PStr ''A''), 4 \<mapsto> Prim PNull]\<rparr>"

definition ex_state :: state where
  "ex_state = \<lparr>selectedImageId = Some 1, mergeRows = [], selectedOptions = Map.empty,
     merging = False, error_msg = None, groupData = Some [ex_img1, ex_img2],
     propertyList = [ex_name, ex_tags], pending = [], hideModal_calls = 0\<rparr>"

lemmas ex_defs = ex_name_def ex_tags_def ex_width_def ex_color_def ex_img1_def ex_img2_def
  ex_img3_def ex_img4_def ex_img5_def

lemmas eval_defs = buildRows_def build_row_def mergeable_def prop_value_def is_defined_def
  is_absent_def Let_def js_sort_def json_array_def json_quote_def json_escape_def
  string_of_int_def string_of_nat.simps combineValues_def isTag_def merge_value_def set_add_def
  digit_char_def array_join_def join_elem_def

section \<open>Which rows are built\<close>

lemma is_absent_iff: "is_absent v \<longleftrightarrow> \<not> is_defined v"
  by (auto simp: is_absent_def is_defined_def)

lemma options0_nonempty:
  "list_ex (\<lambda>img. is_defined (f img)) imgs \<Longrightarrow>
   concat (map (\<lambda>img. if is_absent (f img) then [] else [g img]) imgs) \<noteq> []"
  by (induction imgs) (auto simp: is_absent_iff)

lemma build_row_None_iff:
  "build_row t imgs sel p = None \<longleftrightarrow> \<not> list_ex (\<lambda>img. is_defined (prop_value img (p_id p))) imgs"
proof (cases "list_ex (\<lambda>img. is_defined (prop_value img (p_id p))) imgs")
  case True
  let ?o = "concat (map (\<lambda>img. if is_absent (prop_value img (p_id p)) then []
      else [\<lparr>o_key = string_of_int (i_id img), o_value = prop_value img (p_id p),
             o_sourceImageId = Some (i_id img)\<rparr>]) imgs)"
  from True have "?o \<noteq> []" by (rule options0_nonempty)
  then obtain a as where "?o = a # as" by (cases ?o) auto
  with True show ?thesis
    by (simp add: build_row_def Let_def list_ex_iff split: list.splits)
next
  case False
  then show ?thesis by (simp add: build_row_def Let_def list_ex_iff)
qed

lemma build_row_property:
  "build_row t imgs sel p = Some (row, sel') \<Longrightarrow> r_property row = p"
  by (auto simp: build_row_def Let_def split: if_splits list.splits)

lemma rows_loop_properties:
  "map r_property (fst (rows_loop t imgs ps sel)) =
     filter (\<lambda>p. list_ex (\<lambda>img. is_defined (prop_value img (p_id p))) imgs) ps"
proof (induction ps arbitrary: sel)
  case Nil
  then show ?case by simp
next
  case (Cons p ps)
  show ?case
  proof (cases "build_row t imgs sel p")
    case None
    have "\<not> list_ex (\<lambda>img. is_defined (prop_value img (p_id p))) imgs"
      using None by (simp add: build_row_None_iff)
    then show ?thesis using Cons.IH [of sel] by (simp add: None)
  next
    case (Some a)
    obtain row sel' where a: "a = (row, sel')" by (cases a)
    have "list_ex (\<lambda>img. is_defined (prop_value img (p_id p))) imgs"
      using Some build_row_None_iff [of t imgs sel p] by auto
    then show ?thesis
      using Some a Cons.IH [of sel'] build_row_property [of t imgs sel p row sel']
      by (simp add: case_prod_beta)
  qed
qed

text \<open>
  Claim C1. For every member list and schema list, the properties of the rows that
  \<open>buildRows\<close> emits are, in schema list order, exactly the schemas that are
  user-resolvable (positive identifier, not computed, none of the derived types folder,
  identity, content hash, perceptual hash, width, height) and for which at least one
  member has a defined value (neither \<^verbatim>\<open>undefined\<close> nor \<^verbatim>\<open>null\<close>). For zero members
  the row list is empty and the selection is left as it was; \<open>buildRows\<close> has no failing
  branch.
\<close>

theorem buildRows_rows_iff:
  "map r_property (fst (buildRows t members schemas sel)) =
     filter (\<lambda>S. (0 < p_id S \<and> \<not> p_computed S \<and>
                  p_type S \<notin> {PT_folders, PT_id, PT_sha1, PT_ahash, PT_width, PT_height}) \<and>
                 (\<exists>m \<in> set members. is_defined (prop_value m (p_id S)))) schemas
   \<and> buildRows t [] schemas sel = ([], sel)"
proof -
  have m: "mergeable S \<longleftrightarrow> (0 < p_id S \<and> \<not> p_computed S \<and>
                  p_type S \<notin> {PT_folders, PT_id, PT_sha1, PT_ahash, PT_width, PT_height})" for S
    by (auto simp: mergeable_def)
  show ?thesis
  proof (cases "members = []")
    case True
    then show ?thesis by (simp add: buildRows_def)
  next
    case False
    then show ?thesis
      by (simp add: buildRows_def rows_loop_properties m list_ex_iff cong: filter_cong)
  qed
qed

theorem buildRows_rows_iff_witness:
  "map r_property
     (fst (buildRows id [ex_img1, ex_img2] [ex_width, ex_color, ex_tags, ex_name] Map.empty))
     = [ex_tags, ex_name]
   \<and> buildRows id [] [ex_width, ex_color, ex_tags, ex_name] Map.empty = ([], Map.empty)"
  using buildRows_rows_iff
    [of id "[ex_img1, ex_img2]" "[ex_width, ex_color, ex_tags, ex_name]" Map.empty]
  by (simp add: ex_defs prop_value_def is_defined_def)

section \<open>Conflict detection\<close>

lemma digit_char_inj: "a < 10 \<Longrightarrow> b < 10 \<Longrightarrow> digit_char a = digit_char b \<Longrightarrow> a = b"
proof -
  assume a: "a < 10" and b: "b < 10" and e: "digit_char a = digit_char b"
  from a have "a \<in> {0,1,2,3,4,5,6,7,8,9}" by auto
  moreover from b have "b \<in> {0,1,2,3,4,5,6,7,8,9}" by auto
  ultimately show ?thesis using e by (auto simp: digit_char_def)
qed

lemma digit_char_not_minus: "a < 10 \<Longrightarrow> digit_char a \<noteq> CHR ''-''"
proof -
  assume a: "a < 10"
  from a have "a \<in> {0,1,2,3,4,5,6,7,8,9}" by auto
  then show ?thesis by (auto simp: digit_char_def)
qed

lemma string_of_nat_nonempty: "string_of_nat n \<noteq> []"
  by (subst string_of_nat.simps) simp

lemma string_of_nat_hd: "hd (string_of_nat n) \<noteq> CHR ''-''"
proof (induction n rule: string_of_nat.induct)
  case (1 n)
  show ?case
  proof (cases "n < 10")
    case True
    then show ?thesis by (subst string_of_nat.simps) (simp add: digit_char_not_minus)
  next
    case False
    then show ?thesis using 1 string_of_nat_nonempty [of "n div 10"]
      by (subst string_of_nat.simps) simp
  qed
qed

lemma string_of_nat_inj: "string_of_nat n = string_of_nat m \<Longrightarrow> n = m"
proof (induction n arbitrary: m rule: string_of_nat.induct)
  case (1 n)
  show ?case
  proof (cases "n < 10")
    case n: True
    show ?thesis
    proof (cases "m < 10")
      case True
      with n "1.prems" show ?thesis
        by (simp add: string_of_nat.simps [of n] string_of_nat.simps [of m] digit_char_inj)
    next
      case False
      with n "1.prems" string_of_nat_nonempty [of "m div 10"] show ?thesis
        by (simp add: string_of_nat.simps [of n] string_of_nat.simps [of m])
    qed
  next
    case n: False
    show ?thesis
    proof (cases "m < 10")
      case True
      with n "1.prems" string_of_nat_nonempty [of "n div 10"] show ?thesis
        by (simp add: string_of_nat.simps [of n] string_of_nat.simps [of m])
    next
      case False
      with n "1.prems" have e: "string_of_nat (n div 10) = string_of_nat (m div 10)"
        and d: "digit_char (n mod 10) = digit_char (m mod 10)"
        by (simp_all add: string_of_nat.simps [of n] string_of_nat.simps [of m])
      from "1.IH" [OF n e] have "n div 10 = m div 10" .
      moreover from d have "n mod 10 = m mod 10" by (intro digit_char_inj) simp_all
      ultimately show ?thesis by (metis div_mult_mod_eq)
    qed
  qed
qed

lemma string_of_int_inj: "string_of_int a = string_of_int b \<Longrightarrow> a = b"
proof -
  assume e: "string_of_int a = string_of_int b"
  have h: "CHR ''-'' # xs \<noteq> string_of_nat k" for xs k
    using string_of_nat_hd [of k] by (cases "string_of_nat k") auto
  show ?thesis
  proof (cases "a < 0"; cases "b < 0")
    assume "a < 0" "b < 0"
    with e have "nat (- a) = nat (- b)" by (simp add: string_of_int_def string_of_nat_inj)
    with \<open>a < 0\<close> \<open>b < 0\<close> show ?thesis by simp
  next
    assume "a < 0" "\<not> b < 0"
    with e h show ?thesis by (simp add: string_of_int_def)
  next
    assume "\<not> a < 0" "b < 0"
    with e h [of "string_of_nat (nat (- b))" "nat a"] show ?thesis by (simp add: string_of_int_def)
  next
    assume "\<not> a < 0" "\<not> b < 0"
    with e have "nat a = nat b" by (simp add: string_of_int_def string_of_nat_inj)
    with \<open>\<not> a < 0\<close> \<open>\<not> b < 0\<close> show ?thesis by simp
  qed
qed

lemma identifiers_inj: "identifiers xs \<Longrightarrow> inj_on js_String (set xs)"
proof -
  assume "identifiers xs"
  then consider "list_all is_number xs" | "list_all is_text xs" by (auto simp: identifiers_def)
  then show ?thesis
  proof cases
    case 1
    show ?thesis
    proof (rule inj_onI)
      fix x y assume "x \<in> set xs" "y \<in> set xs" "js_String x = js_String y"
      with 1 show "x = y"
        by (cases x; cases y) (auto simp: list_all_iff dest: string_of_int_inj)
    qed
  next
    case 2
    show ?thesis
    proof (rule inj_onI)
      fix x y assume "x \<in> set xs" "y \<in> set xs" "js_String x = js_String y"
      with 2 show "x = y"
        by (cases x; cases y) (auto simp: list_all_iff)
    qed
  qed
qed

lemma identifiers_defined: "identifiers xs \<Longrightarrow> PUndefined \<notin> set xs"
  by (auto simp: identifiers_def list_all_iff)

lemma sort_key_mset_inj:
  assumes "mset ys = mset xs" and "inj_on f (set xs)"
  shows "sort_key f ys = sort_key f xs"
proof -
  have s: "set ys = set xs" using assms(1) by (metis set_mset_mset)
  have "mset (map f (sort_key f ys)) = mset (map f (sort_key f xs))"
    using assms(1) by simp
  moreover have "sorted (map f (sort_key f ys))" "sorted (map f (sort_key f xs))"
    by simp_all
  ultimately have "map f (sort_key f ys) = map f (sort_key f xs)"
    by (metis properties_for_sort)
  moreover have "inj_on f (set (sort_key f ys) \<union> set (sort_key f xs))"
    using assms(2) s by simp
  ultimately show ?thesis by (rule map_inj_on)
qed

lemma js_sort_identifiers:
  assumes "identifiers xs" and "mset ys = mset xs"
  shows "js_sort ys = js_sort xs"
proof -
  have s: "set ys = set xs" using assms(2) by (metis set_mset_mset)
  have u: "PUndefined \<notin> set xs" using assms(1) by (rule identifiers_defined)
  have "filter (\<lambda>x. x \<noteq> PUndefined) xs = xs" "filter (\<lambda>x. x = PUndefined) xs = []"
       "filter (\<lambda>x. x \<noteq> PUndefined) ys = ys" "filter (\<lambda>x. x = PUndefined) ys = []"
    using u s by (auto simp: filter_id_conv filter_empty_conv)
  then show ?thesis
    using sort_key_mset_inj [OF assms(2) identifiers_inj [OF assms(1)]]
    by (simp add: js_sort_def)
qed

lemma build_row_conflict:
  "build_row t imgs sel p = Some (row, sel') \<Longrightarrow>
   r_conflict row = (1 < card (set (map (\<lambda>v. stringifyValue v p)
      (filter is_defined (map (\<lambda>m. prop_value m (p_id p)) imgs)))))"
  by (auto simp: build_row_def Let_def length_remdups_card_conv split: if_splits list.splits)

lemma rows_loop_row:
  "row \<in> set (fst (rows_loop t imgs ps sel)) \<Longrightarrow>
   \<exists>p sel0 sel1. build_row t imgs sel0 p = Some (row, sel1)"
proof (induction ps arbitrary: sel)
  case Nil
  then show ?case by simp
next
  case (Cons p ps)
  show ?case
  proof (cases "build_row t imgs sel p")
    case None
    with Cons show ?thesis by simp
  next
    case (Some a)
    obtain r sel' where a: "a = (r, sel')" by (cases a)
    from Cons.prems Some a have "row = r \<or> row \<in> set (fst (rows_loop t imgs ps sel'))"
      by (simp add: case_prod_beta)
    then show ?thesis
    proof
      assume "row = r"
      with Some a show ?thesis by blast
    next
      assume "row \<in> set (fst (rows_loop t imgs ps sel'))"
      then show ?thesis by (rule Cons.IH)
    qed
  qed
qed

lemma buildRows_row:
  "row \<in> set (fst (buildRows t imgs ps sel)) \<Longrightarrow>
   \<exists>sel0 sel1. build_row t imgs sel0 (r_property row) = Some (row, sel1)"
proof -
  assume r: "row \<in> set (fst (buildRows t imgs ps sel))"
  then have "row \<in> set (fst (rows_loop t imgs (filter mergeable ps) sel))"
    by (simp add: buildRows_def split: if_splits)
  then obtain p sel0 sel1 where b: "build_row t imgs sel0 p = Some (row, sel1)"
    using rows_loop_row by blast
  then have "r_property row = p" by (rule build_row_property)
  with b show ?thesis by blast
qed

lemma same_keys_no_conflict:
  assumes "mergeable p"
    and "prop_value m1 (p_id p) = Arr xs" and "prop_value m2 (p_id p) = Arr ys"
    and "stringifyValue (Arr ys) p = stringifyValue (Arr xs) p"
  shows "\<exists>row. fst (buildRows t [m1, m2] [p] sel) = [row] \<and> \<not> r_conflict row"
proof -
  have d: "is_defined (Arr xs)" "is_defined (Arr ys)" by (simp_all add: is_defined_def)
  have a: "\<not> is_absent (Arr xs)" "\<not> is_absent (Arr ys)" by (simp_all add: is_absent_def)
  show ?thesis using assms d a
    by (simp add: buildRows_def build_row_def Let_def split: option.splits)
qed

text \<open>
  Claim C2. For every row built by \<open>buildRows\<close>, the conflict flag is true if and only if
  the canonical keys (\<open>stringifyValue\<close>) of the members' defined values for the row's
  property take more than one distinct value. The canonical key of a sequence of tag
  identifiers does not depend on the order of the sequence, so two members holding the
  same identifiers in different orders give a row that is not in conflict.
\<close>

theorem conflict_iff_distinct_keys:
  "(\<forall>row \<in> set (fst (buildRows t members schemas sel)).
      r_conflict row \<longleftrightarrow>
        1 < card (set (map (\<lambda>v. stringifyValue v (r_property row))
               (filter is_defined (map (\<lambda>m. prop_value m (p_id (r_property row))) members)))))
   \<and> (identifiers xs \<and> mset ys = mset xs \<longrightarrow>
        stringifyValue (Arr ys) p = stringifyValue (Arr xs) p)
   \<and> (identifiers xs \<and> mset ys = mset xs \<and> mergeable p \<and>
        prop_value m1 (p_id p) = Arr xs \<and> prop_value m2 (p_id p) = Arr ys \<longrightarrow>
        (\<exists>row. fst (buildRows t [m1, m2] [p] sel) = [row] \<and> \<not> r_conflict row))"
proof (intro conjI ballI impI)
  fix row assume "row \<in> set (fst (buildRows t members schemas sel))"
  then obtain sel0 sel1 where "build_row t members sel0 (r_property row) = Some (row, sel1)"
    using buildRows_row by blast
  then show "r_conflict row \<longleftrightarrow>
        1 < card (set (map (\<lambda>v. stringifyValue v (r_property row))
               (filter is_defined (map (\<lambda>m. prop_value m (p_id (r_property row))) members))))"
    by (rule build_row_conflict)
next
  assume "identifiers xs \<and> mset ys = mset xs"
  then show "stringifyValue (Arr ys) p = stringifyValue (Arr xs) p"
    using js_sort_identifiers [of xs ys] by simp
next
  assume h: "identifiers xs \<and> mset ys = mset xs \<and> mergeable p \<and>
        prop_value m1 (p_id p) = Arr xs \<and> prop_value m2 (p_id p) = Arr ys"
  then have "stringifyValue (Arr ys) p = stringifyValue (Arr xs) p"
    using js_sort_identifiers [of xs ys] by simp
  with h show "\<exists>row. fst (buildRows t [m1, m2] [p] sel) = [row] \<and> \<not> r_conflict row"
    using same_keys_no_conflict [where p = p and ?m1.0 = m1 and ?m2.0 = m2 and xs = xs and ys = ys]
    by simp
qed

theorem conflict_iff_distinct_keys_witness:
  "map r_conflict (fst (buildRows id [ex_img1, ex_img2] [ex_name, ex_tags] Map.empty)) = [True, True]
   \<and> stringifyValue (Arr [PStr ''b'', PStr ''a'']) ex_tags =
       stringifyValue (Arr [PStr ''a'', PStr ''b'']) ex_tags
   \<and> map r_conflict (fst (buildRows id [ex_img3, ex_img4] [ex_tags] Map.empty)) = [False]"
  using conflict_iff_distinct_keys [of id "[ex_img1, ex_img2]" "[ex_name, ex_tags]" Map.empty
      "[PStr ''a'', PStr ''b'']" "[PStr ''b'', PStr ''a'']" ex_tags ex_img3 ex_img4]
  by (simp add: ex_defs eval_defs identifiers_def)

section \<open>The selection after a rebuild\<close>

lemma build_row_selection:
  "build_row t imgs sel p = Some (row, sel') \<Longrightarrow>
   r_options row \<noteq> [] \<and>
   sel' = sel(p_id p \<mapsto> (case sel (p_id p) of
                            Some k \<Rightarrow> k
                          | None \<Rightarrow> if r_conflict row then ''combined''
                                    else o_key (hd (r_options row))))"
  by (auto simp: build_row_def Let_def split: if_splits list.splits option.splits)

lemma rows_loop_keeps:
  "sel P = Some k \<Longrightarrow> snd (rows_loop t imgs ps sel) P = Some k"
proof (induction ps arbitrary: sel)
  case Nil
  then show ?case by simp
next
  case (Cons p ps)
  show ?case
  proof (cases "build_row t imgs sel p")
    case None
    with Cons show ?thesis by simp
  next
    case (Some a)
    obtain r sel' where a: "a = (r, sel')" by (cases a)
    from Some a have "sel' P = Some k"
      using build_row_selection [of t imgs sel p r sel'] Cons.prems by auto
    then have "snd (rows_loop t imgs ps sel') P = Some k" by (rule Cons.IH)
    with Some a show ?thesis by (simp add: case_prod_beta)
  qed
qed

lemma rows_loop_default:
  "sel P = None \<Longrightarrow>
   find (\<lambda>r. p_id (r_property r) = P) (fst (rows_loop t imgs ps sel)) = Some row \<Longrightarrow>
   snd (rows_loop t imgs ps sel) P =
     Some (if r_conflict row then ''combined'' else o_key (hd (r_options row)))"
proof (induction ps arbitrary: sel)
  case Nil
  then show ?case by simp
next
  case (Cons p ps)
  show ?case
  proof (cases "build_row t imgs sel p")
    case None
    with Cons show ?thesis by simp
  next
    case (Some a)
    obtain r sel' where a: "a = (r, sel')" by (cases a)
    have rp: "r_property r = p" using Some a build_row_property by blast
    have s: "sel' = sel(p_id p \<mapsto> (case sel (p_id p) of
                            Some k \<Rightarrow> k
                          | None \<Rightarrow> if r_conflict r then ''combined''
                                    else o_key (hd (r_options r))))"
      using Some a build_row_selection [of t imgs sel p r sel'] by simp
    show ?thesis
    proof (cases "p_id p = P")
      case True
      with Cons.prems(2) Some a rp have "row = r" by (simp add: case_prod_beta)
      moreover from s True Cons.prems(1)
      have "sel' P = Some (if r_conflict r then ''combined'' else o_key (hd (r_options r)))"
        by simp
      ultimately have "snd (rows_loop t imgs ps sel') P =
          Some (if r_conflict row then ''combined'' else o_key (hd (r_options row)))"
        using rows_loop_keeps by simp
      with Some a show ?thesis by (simp add: case_prod_beta)
    next
      case False
      with s Cons.prems(1) have "sel' P = None" by simp
      moreover from False Cons.prems(2) Some a rp
      have "find (\<lambda>r. p_id (r_property r) = P) (fst (rows_loop t imgs ps sel')) = Some row"
        by (simp add: case_prod_beta)
      ultimately have "snd (rows_loop t imgs ps sel') P =
          Some (if r_conflict row then ''combined'' else o_key (hd (r_options row)))"
        by (rule Cons.IH)
      with Some a show ?thesis by (simp add: case_prod_beta)
    qed
  qed
qed

lemma rows_loop_options: "row \<in> set (fst (rows_loop t imgs ps sel)) \<Longrightarrow> r_options row \<noteq> []"
  using rows_loop_row [of row t imgs ps sel] build_row_selection by blast

text \<open>
  Claim C3, as amended. \<open>buildRows\<close> keeps a prior selection key for property \<open>P\<close>
  whenever one is present, whether or not it names an option of the new row (line 163
  tests the key with \<^verbatim>\<open>??\<close> only, and \<open>confirmMerge\<close> skips a row whose key matches no
  option). Only when no prior key is present does the selection become the default: the
  combined key when the row conflicts, otherwise the key of the row's first option.
  The row meant is the first one emitted for \<open>P\<close>.
\<close>

theorem selection_after_rebuild:
  "(sel P = Some k \<longrightarrow> snd (buildRows t members schemas sel) P = Some k)
   \<and> (sel P = None \<and>
       find (\<lambda>r. p_id (r_property r) = P) (fst (buildRows t members schemas sel)) = Some row \<longrightarrow>
         r_options row \<noteq> [] \<and>
         snd (buildRows t members schemas sel) P =
           Some (if r_conflict row then ''combined'' else o_key (hd (r_options row))))"
proof (intro conjI impI)
  assume "sel P = Some k"
  then show "snd (buildRows t members schemas sel) P = Some k"
    by (simp add: buildRows_def rows_loop_keeps)
next
  assume h: "sel P = None \<and>
       find (\<lambda>r. p_id (r_property r) = P) (fst (buildRows t members schemas sel)) = Some row"
  then have m: "members \<noteq> []" by (auto simp: buildRows_def)
  from h have "row \<in> set (fst (buildRows t members schemas sel))"
    by (auto simp: find_Some_iff)
  with m show "r_options row \<noteq> []"
    using rows_loop_options by (simp add: buildRows_def)
next
  assume h: "sel P = None \<and>
       find (\<lambda>r. p_id (r_property r) = P) (fst (buildRows t members schemas sel)) = Some row"
  then have m: "members \<noteq> []" by (auto simp: buildRows_def)
  with h show "snd (buildRows t members schemas sel) P =
           Some (if r_conflict row then ''combined'' else o_key (hd (r_options row)))"
    using rows_loop_default [of sel P t members "filter mergeable schemas" row]
    by (simp add: buildRows_def)
qed

theorem selection_after_rebuild_witness:
  "snd (buildRows id [ex_img1, ex_img2] [ex_name, ex_tags] [1 \<mapsto> ''2'']) 1 = Some ''2''
   \<and> snd (buildRows id [ex_img1, ex_img2] [ex_name, ex_tags] [1 \<mapsto> ''2'']) 2 = Some ''combined''
   \<and> snd (buildRows id [ex_img3, ex_img4] [ex_name, ex_tags] [1 \<mapsto> ''2'']) 2 = Some ''3''"
  using selection_after_rebuild [of "[1 \<mapsto> ''2'']" 1 "''2''" id "[ex_img1, ex_img2]" "[ex_name, ex_tags]"]
    selection_after_rebuild [of "[1 \<mapsto> ''2'']" 2 "''2''" id "[ex_img1, ex_img2]" "[ex_name, ex_tags]"
      "hd (tl (fst (buildRows id [ex_img1, ex_img2] [ex_name, ex_tags] [1 \<mapsto> ''2''])))"]
    selection_after_rebuild [of "[1 \<mapsto> ''2'']" 2 "''2''" id "[ex_img3, ex_img4]" "[ex_name, ex_tags]"
      "hd (fst (buildRows id [ex_img3, ex_img4] [ex_name, ex_tags] [1 \<mapsto> ''2'']))"]
  by (simp add: ex_defs eval_defs)

theorem stale_selection_counterexample:
  "map o_key (concat (map r_options (fst (buildRows id [ex_img1] [ex_name] [1 \<mapsto> ''9''])))) = [''1'']
   \<and> map r_conflict (fst (buildRows id [ex_img1] [ex_name] [1 \<mapsto> ''9''])) = [False]
   \<and> snd (buildRows id [ex_img1] [ex_name] [1 \<mapsto> ''9'']) 1 = Some ''9''
   \<and> snd (buildRows id [ex_img1] [ex_name] [1 \<mapsto> ''9'']) 1 \<noteq> Some ''1''"
  by (simp add: ex_defs eval_defs)

section \<open>The commit\<close>

lemma find_filter: "find P xs = (case filter P xs of [] \<Rightarrow> None | x # _ \<Rightarrow> Some x)"
  by (induction xs) auto

lemma resolved_value_selected:
  "resolved_value sel row =
     (case selected_option sel row of
        None \<Rightarrow> None
      | Some opt \<Rightarrow> if is_absent (o_value opt) then None else Some (o_value opt))"
  by (simp add: resolved_value_def selected_option_def find_filter is_absent_iff
      split: option.splits list.splits)

lemma commit_loop_lists:
  "commit_loop ni sel rows c =
     c\<lparr>instanceValues := instanceValues c @
          concat (map (\<lambda>row. case resolved_value sel row of
                          None \<Rightarrow> []
                        | Some v \<Rightarrow>
                            if p_mode (r_property row) = PM_id
                            then [\<lparr>ipv_propertyId = p_id (r_property row),
                                   ipv_instanceId = i_id ni, ipv_value = v\<rparr>]
                            else []) rows),
       imageValues := imageValues c @
          concat (map (\<lambda>row. case resolved_value sel row of
                          None \<Rightarrow> []
                        | Some v \<Rightarrow>
                            if p_mode (r_property row) = PM_sha1
                            then [\<lparr>imv_propertyId = p_id (r_property row),
                                   imv_sha1 = i_sha1 ni, imv_value = v\<rparr>]
                            else []) rows)\<rparr>"
proof (induction rows arbitrary: c)
  case Nil
  show ?case by simp
next
  case (Cons row rows)
  have m: "p_mode (r_property row) \<noteq> PM_id \<longleftrightarrow> p_mode (r_property row) = PM_sha1"
    by (cases "p_mode (r_property row)") auto
  show ?case
    by (cases "selected_option sel row")
       (auto simp: Cons.IH resolved_value_selected m)
qed

lemma resolved_value_None:
  "selected_option sel row = None \<or>
     (\<exists>opt. selected_option sel row = Some opt \<and> is_absent (o_value opt))
   \<longleftrightarrow> resolved_value sel row = None"
  by (auto simp: resolved_value_selected split: option.splits)

text \<open>
  Claim C4. For every base member, row list and selection, the commit holds one new
  member, the base member copied with its identifier replaced by \<open>- 1\<close>, and each row that
  resolves to a value contributes exactly one entry: a row whose property has the
  per-instance scope adds (property id, \<open>- 1\<close>, value) to \<open>instanceValues\<close>, a row whose
  property has the per-entity scope adds (property id, content hash of the new member,
  value) to \<open>imageValues\<close>, in row order. No row contributes to both lists; when rows with
  the same property identifier agree on the scope, as the rows of one property catalog
  do, no property identifier occurs in both lists.
\<close>

theorem build_commit_routing:
  "build_commit baseMember rows selection =
     \<lparr>instances = [baseMember\<lparr>i_id := - 1\<rparr>],
      instanceValues =
        concat (map (\<lambda>row. case resolved_value selection row of
                        None \<Rightarrow> []
                      | Some v \<Rightarrow>
                          if p_mode (r_property row) = PM_id
                          then [\<lparr>ipv_propertyId = p_id (r_property row),
                                 ipv_instanceId = - 1, ipv_value = v\<rparr>]
                          else []) rows),
      imageValues =
        concat (map (\<lambda>row. case resolved_value selection row of
                        None \<Rightarrow> []
                      | Some v \<Rightarrow>
                          if p_mode (r_property row) = PM_sha1
                          then [\<lparr>imv_propertyId = p_id (r_property row),
                                 imv_sha1 = i_sha1 baseMember, imv_value = v\<rparr>]
                          else []) rows)\<rparr>
   \<and> length (instanceValues (build_commit baseMember rows selection)) +
       length (imageValues (build_commit baseMember rows selection)) =
       length (filter (\<lambda>row. resolved_value selection row \<noteq> None) rows)
   \<and> ((\<forall>r \<in> set rows. \<forall>r' \<in> set rows.
          p_id (r_property r) = p_id (r_property r') \<longrightarrow>
          p_mode (r_property r) = p_mode (r_property r')) \<longrightarrow>
        set (map ipv_propertyId (instanceValues (build_commit baseMember rows selection))) \<inter>
        set (map imv_propertyId (imageValues (build_commit baseMember rows selection))) = {})"
proof (intro conjI impI)
  show "build_commit baseMember rows selection =
     \<lparr>instances = [baseMember\<lparr>i_id := - 1\<rparr>],
      instanceValues =
        concat (map (\<lambda>row. case resolved_value selection row of
                        None \<Rightarrow> []
                      | Some v \<Rightarrow>
                          if p_mode (r_property row) = PM_id
                          then [\<lparr>ipv_propertyId = p_id (r_property row),
                                 ipv_instanceId = - 1, ipv_value = v\<rparr>]
                          else []) rows),
      imageValues =
        concat (map (\<lambda>row. case resolved_value selection row of
                        None \<Rightarrow> []
                      | Some v \<Rightarrow>
                          if p_mode (r_property row) = PM_sha1
                          then [\<lparr>imv_propertyId = p_id (r_property row),
                                 imv_sha1 = i_sha1 baseMember, imv_value = v\<rparr>]
                          else []) rows)\<rparr>"
    by (simp add: build_commit_def Let_def commit_loop_lists cong: option.case_cong if_cong)
next
  show "length (instanceValues (build_commit baseMember rows selection)) +
       length (imageValues (build_commit baseMember rows selection)) =
       length (filter (\<lambda>row. resolved_value selection row \<noteq> None) rows)"
    unfolding build_commit_def Let_def commit_loop_lists
  proof (induction rows)
    case Nil
    show ?case by simp
  next
    case (Cons row rows)
    then show ?case
      by (cases "p_mode (r_property row)") (auto split: option.splits)
  qed
next
  assume h: "\<forall>r \<in> set rows. \<forall>r' \<in> set rows.
          p_id (r_property r) = p_id (r_property r') \<longrightarrow>
          p_mode (r_property r) = p_mode (r_property r')"
  show "set (map ipv_propertyId (instanceValues (build_commit baseMember rows selection))) \<inter>
        set (map imv_propertyId (imageValues (build_commit baseMember rows selection))) = {}"
  proof (rule ccontr)
    assume "\<not> ?thesis"
    then obtain pid where
      a: "pid \<in> set (map ipv_propertyId (instanceValues (build_commit baseMember rows selection)))"
      and b: "pid \<in> set (map imv_propertyId (imageValues (build_commit baseMember rows selection)))"
      by blast
    from a obtain r where r: "r \<in> set rows" "p_id (r_property r) = pid" "p_mode (r_property r) = PM_id"
      by (auto simp: build_commit_def Let_def commit_loop_lists split: option.splits if_splits)
    from b obtain r' where r': "r' \<in> set rows" "p_id (r_property r') = pid" "p_mode (r_property r') = PM_sha1"
      by (auto simp: build_commit_def Let_def commit_loop_lists split: option.splits if_splits)
    from h r r' show False by fastforce
  qed
qed

theorem build_commit_routing_witness:
  "build_commit ex_img1 (fst (buildRows id [ex_img1, ex_img2] [ex_name, ex_tags] Map.empty))
       [1 \<mapsto> ''1'', 2 \<mapsto> ''combined''] =
     \<lparr>instances = [ex_img1\<lparr>i_id := - 1\<rparr>],
      instanceValues = [\<lparr>ipv_propertyId = 2, ipv_instanceId = - 1,
                         ipv_value = Arr [PNum 1, PNum 2, PNum 3]\<rparr>],
      imageValues = [\<lparr>imv_propertyId = 1, imv_sha1 = ''h1'', imv_value = Prim (PStr ''A'')\<rparr>]\<rparr>
   \<and> set (map ipv_propertyId (instanceValues (build_commit ex_img1
          (fst (buildRows id [ex_img1, ex_img2] [ex_name, ex_tags] Map.empty))
          [1 \<mapsto> ''1'', 2 \<mapsto> ''combined'']))) \<inter>
       set (map imv_propertyId (imageValues (build_commit ex_img1
          (fst (buildRows id [ex_img1, ex_img2] [ex_name, ex_tags] Map.empty))
          [1 \<mapsto> ''1'', 2 \<mapsto> ''combined'']))) = {}"
  using build_commit_routing [of ex_img1
      "fst (buildRows id [ex_img1, ex_img2] [ex_name, ex_tags] Map.empty)"
      "[1 \<mapsto> ''1'', 2 \<mapsto> ''combined'']"]
  by (simp add: ex_defs eval_defs resolved_value_def)

text \<open>
  Claim C8. A row whose selection key matches no option of the row, or whose matching
  option carries an absent value (\<^verbatim>\<open>undefined\<close> or \<^verbatim>\<open>null\<close>), leaves no trace in the
  commit: the commit is the one built from the remaining rows. \<open>build_commit\<close> is total,
  it has no failing branch.
\<close>

theorem unresolvable_row_omitted:
  assumes "selected_option selection row = None \<or>
     (\<exists>opt. selected_option selection row = Some opt \<and> is_absent (o_value opt))"
  shows "build_commit baseMember (rows1 @ row # rows2) selection =
         build_commit baseMember (rows1 @ rows2) selection"
proof -
  from assms have "resolved_value selection row = None"
    by (simp only: resolved_value_None)
  then show ?thesis
    by (simp add: build_commit_def Let_def commit_loop_lists)
qed

theorem unresolvable_row_omitted_witness:
  "build_commit ex_img1 (fst (buildRows id [ex_img1, ex_img2] [ex_name, ex_tags] Map.empty))
       [1 \<mapsto> ''9'', 2 \<mapsto> ''1''] =
     \<lparr>instances = [ex_img1\<lparr>i_id := - 1\<rparr>],
      instanceValues = [\<lparr>ipv_propertyId = 2, ipv_instanceId = - 1,
                         ipv_value = Arr [PNum 1, PNum 2]\<rparr>],
      imageValues = []\<rparr>"
proof -
  let ?rows = "fst (buildRows id [ex_img1, ex_img2] [ex_name, ex_tags] Map.empty)"
  have r: "?rows = [] @ hd ?rows # tl ?rows"
    by (simp add: ex_defs eval_defs)
  have s: "selected_option [1 \<mapsto> ''9'', 2 \<mapsto> ''1''] (hd ?rows) = None"
    by (simp add: ex_defs eval_defs selected_option_def)
  have "build_commit ex_img1 ([] @ hd ?rows # tl ?rows) [1 \<mapsto> ''9'', 2 \<mapsto> ''1''] =
        build_commit ex_img1 ([] @ tl ?rows) [1 \<mapsto> ''9'', 2 \<mapsto> ''1'']"
    using s by (intro unresolvable_row_omitted) simp
  also have "\<dots> = \<lparr>instances = [ex_img1\<lparr>i_id := - 1\<rparr>],
      instanceValues = [\<lparr>ipv_propertyId = 2, ipv_instanceId = - 1,
                         ipv_value = Arr [PNum 1, PNum 2]\<rparr>],
      imageValues = []\<rparr>"
    by (simp add: ex_defs eval_defs build_commit_def selected_option_def)
  finally show ?thesis using r by simp
qed

section \<open>Combining tag values\<close>

lemma set_first_seen: "set (first_seen xs) = set xs"
  by (induction xs rule: first_seen.induct) auto

lemma distinct_first_seen: "distinct (first_seen xs)"
  by (induction xs rule: first_seen.induct) (auto simp: set_first_seen)

lemma foldl_set_add:
  "foldl set_add acc ys = acc @ first_seen (filter (\<lambda>y. y \<notin> set acc) ys)"
proof (induction ys arbitrary: acc)
  case Nil
  show ?case by simp
next
  case (Cons y ys)
  show ?case
  proof (cases "y \<in> set acc")
    case True
    then show ?thesis using Cons [of acc] by (simp add: set_add_def)
  next
    case False
    have "filter (\<lambda>z. z \<notin> set (acc @ [y])) ys = filter (\<lambda>z. z \<noteq> y) (filter (\<lambda>z. z \<notin> set acc) ys)"
      by (induction ys) auto
    then show ?thesis using False Cons [of "acc @ [y]"] by (simp add: set_add_def)
  qed
qed

lemma merge_value_ids: "merge_value acc v = foldl set_add acc (value_ids v)"
  by (cases v) (simp_all add: merge_value_def)

lemma foldl_merge_value:
  "foldl merge_value acc vs = foldl set_add acc (concat (map value_ids vs))"
  by (induction vs arbitrary: acc) (simp_all add: merge_value_ids)

lemma tag_value_defined: "tag_value v \<Longrightarrow> is_defined v"
  by (cases v) (auto simp: is_defined_def is_identifier_def)

lemma combineValues_no_defined:
  "\<not> list_ex is_defined vals \<Longrightarrow> combineValues t vals property = Prim PUndefined"
  by (simp add: combineValues_def list_ex_iff filter_empty_conv)

text \<open>
  Claim C6, as amended. For every tag-typed property and every non-empty list of tag
  values (each a single identifier or a sequence of identifiers), \<open>combineValues\<close> returns
  the sequence of all identifiers referred to, without duplicates, in first-seen order
  over the values; its elements are exactly the identifiers of the values. For a list
  with no defined value \<open>combineValues\<close> returns \<^verbatim>\<open>undefined\<close> (line 114), not a sequence.
\<close>

theorem combineValues_tags:
  assumes "isTag (p_type property)"
    and "\<forall>v \<in> set vals. tag_value v"
    and "vals \<noteq> []"
  shows "combineValues t vals property = Arr (first_seen (concat (map value_ids vals)))
    \<and> distinct (first_seen (concat (map value_ids vals)))
    \<and> set (first_seen (concat (map value_ids vals))) = (\<Union>v \<in> set vals. set (value_ids v))"
proof -
  have "filter is_defined vals = vals"
    using assms(2) by (simp add: filter_id_conv tag_value_defined)
  then have "combineValues t vals property = Arr (first_seen (concat (map value_ids vals)))"
    using assms(1,3) by (simp add: combineValues_def foldl_merge_value foldl_set_add)
  then show ?thesis
    by (simp add: distinct_first_seen set_first_seen)
qed

theorem combineValues_tags_witness:
  "combineValues id [Arr [PNum 1, PNum 2], Arr [PNum 2, PNum 3], Prim (PNum 1), Prim (PNum 7)] ex_tags =
     Arr [PNum 1, PNum 2, PNum 3, PNum 7]"
  using combineValues_tags [of ex_tags
      "[Arr [PNum 1, PNum 2], Arr [PNum 2, PNum 3], Prim (PNum 1), Prim (PNum 7)]" id]
  by (simp add: ex_defs isTag_def is_identifier_def)

theorem combineValues_empty_counterexample:
  "combineValues id [] ex_tags = Prim PUndefined \<and> combineValues id [] ex_tags \<noteq> Arr []"
  by (simp add: combineValues_def)

section \<open>Combining other values\<close>

text \<open>
  Claim C7, as amended. For every property that is not tag-typed and every list with at
  least one defined value, \<open>combineValues\<close> returns a text: the display strings
  (\<open>formatValue\<close>) of the defined values, in order, joined by the separator \<^verbatim>\<open>" -- "\<close>
  (space, two hyphens, space) between every two adjacent values. Combining \<^verbatim>\<open>"red"\<close> and
  \<^verbatim>\<open>"blue"\<close> yields \<^verbatim>\<open>"red -- blue"\<close>. For a list with no defined value the result is
  \<^verbatim>\<open>undefined\<close>.
\<close>

theorem combineValues_text:
  assumes "\<not> isTag (p_type property)" and "list_ex is_defined vals"
  shows "combineValues t vals property =
           Prim (PStr (join '' -- '' (map (\<lambda>v. formatValue t v property) (filter is_defined vals))))
    \<and> (is_defined a \<and> is_defined b \<longrightarrow>
         combineValues t [a, b] property =
           Prim (PStr (formatValue t a property @ '' -- '' @ formatValue t b property)))"
proof -
  have "filter is_defined vals \<noteq> []"
    using assms(2) by (auto simp: list_ex_iff filter_empty_conv)
  then show ?thesis using assms(1) by (simp add: combineValues_def)
qed

theorem combineValues_text_witness:
  "combineValues id [Prim (PStr ''red''), Prim PNull, Prim (PStr ''blue'')] ex_name =
     Prim (PStr ''red -- blue'')
   \<and> combineValues id [Prim (PStr ''red''), Prim (PStr ''blue'')] ex_name =
     Prim (PStr ''red -- blue'')"
  using combineValues_text [where property = ex_name and t = id
      and vals = "[Prim (PStr ''red''), Prim PNull, Prim (PStr ''blue'')]"
      and a = "Prim (PStr ''red'')" and b = "Prim (PStr ''blue'')"]
  by (simp add: ex_defs isTag_def is_defined_def)

theorem combineValues_separator_counterexample:
  "combineValues id [Prim (PStr ''red''), Prim (PStr ''blue'')] ex_name = Prim (PStr ''red -- blue'')
   \<and> combineValues id [Prim (PStr ''red''), Prim (PStr ''blue'')] ex_name \<noteq>
       Prim (PStr (''red '' @ [CHR 0xE2, CHR 0x80, CHR 0x94] @ '' blue''))
   \<and> combineValues id [] ex_name = Prim PUndefined"
  by (simp add: ex_defs combineValues_def isTag_def is_defined_def)

section \<open>The key of an absent value\<close>

lemma digit_char_digit: "a < 10 \<Longrightarrow> digit_char a \<in> set ''0123456789''"
proof -
  assume a: "a < 10"
  from a have "a \<in> {0,1,2,3,4,5,6,7,8,9}" by auto
  then show ?thesis by (auto simp: digit_char_def)
qed

lemma string_of_nat_hd_digit: "hd (string_of_nat n) \<in> set ''0123456789''"
proof (induction n rule: string_of_nat.induct)
  case (1 n)
  show ?case
  proof (cases "n < 10")
    case True
    then show ?thesis using digit_char_digit [of n] by (subst string_of_nat.simps) simp
  next
    case False
    then show ?thesis using 1 string_of_nat_nonempty [of "n div 10"]
      by (subst string_of_nat.simps) simp
  qed
qed

lemma string_of_int_hd: "hd (string_of_int i) \<in> set ''0123456789-''"
  using string_of_nat_hd_digit [of "nat i"] by (auto simp: string_of_int_def)

lemma string_of_int_not_key: "string_of_int i \<noteq> ''__undefined__''"
  using string_of_int_hd [of i] by auto

text \<open>
  Claim C9, as amended. The canonical key of an absent value (\<^verbatim>\<open>undefined\<close> or \<^verbatim>\<open>null\<close>)
  is \<^verbatim>\<open>__undefined__\<close>, and the canonical key of a defined value differs from it, for
  every property schema, except for the text \<^verbatim>\<open>__undefined__\<close> itself under a color-typed
  property, whose key is its plain text.
\<close>

theorem absent_key_distinct:
  assumes "is_defined v" and "dates_wf v"
    and "p_type property = PT_color \<longrightarrow> v \<noteq> Prim (PStr ''__undefined__'')"
  shows "stringifyValue (Prim PUndefined) property = ''__undefined__''
     \<and> stringifyValue (Prim PNull) property = ''__undefined__''
     \<and> stringifyValue v property \<noteq> ''__undefined__''"
proof -
  have "stringifyValue v property \<noteq> ''__undefined__''"
  proof (cases v)
    case (Arr xs)
    then show ?thesis by (simp add: json_array_def)
  next
    case (Prim x)
    show ?thesis
    proof (cases x)
      case PUndefined
      with Prim assms(1) show ?thesis by (simp add: is_defined_def)
    next
      case PNull
      with Prim assms(1) show ?thesis by (simp add: is_defined_def)
    next
      case (PBool b)
      with Prim show ?thesis by simp
    next
      case (PNum n)
      with Prim show ?thesis by (simp add: string_of_int_not_key)
    next
      case (PStr s)
      with Prim assms(3) show ?thesis by (auto simp: json_quote_def)
    next
      case (PDate d)
      with Prim assms(2) show ?thesis by (auto simp: iso_text_def split: list.splits)
    qed
  qed
  then show ?thesis by simp
qed

theorem absent_key_distinct_witness:
  "stringifyValue (Prim (PStr ''__undefined__'')) ex_name \<noteq> ''__undefined__''
   \<and> stringifyValue (Prim (PStr ''#ff0000'')) ex_color \<noteq> ''__undefined__''
   \<and> stringifyValue (Prim (PNum 3)) ex_color \<noteq> ''__undefined__''"
  using absent_key_distinct [of "Prim (PStr ''__undefined__'')" ex_name]
    absent_key_distinct [of "Prim (PStr ''#ff0000'')" ex_color]
    absent_key_distinct [of "Prim (PNum 3)" ex_color]
  by (simp add: ex_defs is_defined_def)

theorem color_key_counterexample:
  "is_defined (Prim (PStr ''__undefined__''))
   \<and> stringifyValue (Prim (PStr ''__undefined__'')) ex_color =
       stringifyValue (Prim PUndefined) ex_color"
  by (simp add: ex_defs is_defined_def)

section \<open>Null and missing values\<close>

lemma null_to_missing_fields:
  "i_id (null_to_missing k m) = i_id m"
  "i_sha1 (null_to_missing k m) = i_sha1 m"
  "i_name (null_to_missing k m) = i_name m"
  by (simp_all add: null_to_missing_def)

lemma prop_value_null_to_missing:
  "prop_value (null_to_missing k m) j = (if j = k then Prim PUndefined else prop_value m j)"
  by (simp add: null_to_missing_def prop_value_def)

lemma combineValues_filter:
  "filter is_defined vs' = filter is_defined vs \<Longrightarrow> combineValues t vs' p = combineValues t vs p"
  by (simp add: combineValues_def)

lemma build_row_null_to_missing:
  assumes "i_properties m k = Some (Prim PNull)"
  shows "build_row t (ms1 @ null_to_missing k m # ms2) sel p = build_row t (ms1 @ m # ms2) sel p"
proof -
  let ?m' = "null_to_missing k m"
  let ?pv = "\<lambda>img. prop_value img (p_id p)"
  have n: "prop_value m k = Prim PNull" using assms by (simp add: prop_value_def)
  have d: "is_defined (?pv ?m') = is_defined (?pv m)"
    using n by (simp add: prop_value_null_to_missing is_defined_def)
  have v: "is_defined (?pv m) \<Longrightarrow> ?pv ?m' = ?pv m"
    using n by (auto simp: prop_value_null_to_missing is_defined_def)
  have e3: "filter is_defined (map ?pv (ms1 @ ?m' # ms2)) = filter is_defined (map ?pv (ms1 @ m # ms2))"
    using d v by simp
  have e1: "list_ex is_defined (map ?pv (ms1 @ ?m' # ms2)) = list_ex is_defined (map ?pv (ms1 @ m # ms2))"
    using d by (simp add: list_ex_iff)
  have e2: "concat (map (\<lambda>img. if is_absent (?pv img) then []
                else [\<lparr>o_key = string_of_int (i_id img), o_value = ?pv img,
                       o_sourceImageId = Some (i_id img)\<rparr>]) (ms1 @ ?m' # ms2)) =
            concat (map (\<lambda>img. if is_absent (?pv img) then []
                else [\<lparr>o_key = string_of_int (i_id img), o_value = ?pv img,
                       o_sourceImageId = Some (i_id img)\<rparr>]) (ms1 @ m # ms2))"
    using d v by (simp add: is_absent_iff null_to_missing_fields)
  have e4: "combineValues t (map ?pv (ms1 @ ?m' # ms2)) p = combineValues t (map ?pv (ms1 @ m # ms2)) p"
    using e3 by (rule combineValues_filter)
  show ?thesis
    unfolding build_row_def Let_def by (simp only: e1 e2 e3 e4)
qed

lemma rows_loop_null_to_missing:
  assumes "i_properties m k = Some (Prim PNull)"
  shows "rows_loop t (ms1 @ null_to_missing k m # ms2) ps sel = rows_loop t (ms1 @ m # ms2) ps sel"
  by (induction ps arbitrary: sel)
     (simp_all add: build_row_null_to_missing [OF assms] split: option.splits)

lemma commit_loop_sha1:
  "i_id ni' = i_id ni \<Longrightarrow> i_sha1 ni' = i_sha1 ni \<Longrightarrow>
   commit_loop ni' sel rows c = commit_loop ni sel rows c"
  by (simp add: commit_loop_lists cong: option.case_cong if_cong)

text \<open>
  Claim C10, as amended. Replacing a member's \<^verbatim>\<open>null\<close> entry for a property by a missing
  entry leaves the result of \<open>buildRows\<close> (rows and selection) unchanged, and with it the
  two value lists of the commit, whichever member is the base: a \<^verbatim>\<open>null\<close> value gives no
  option, no canonical key, no part of a combined value and no entry of the value lists,
  like a missing one. The new member of the commit is a copy of the base member, so it
  carries the base member's own property map, with the \<^verbatim>\<open>null\<close> entry or without it.
\<close>

theorem null_like_missing:
  assumes "i_properties m k = Some (Prim PNull)"
  shows "buildRows t (ms1 @ null_to_missing k m # ms2) schemas sel =
           buildRows t (ms1 @ m # ms2) schemas sel
     \<and> instanceValues (build_commit (null_to_missing k m) rows selection) =
         instanceValues (build_commit m rows selection)
     \<and> imageValues (build_commit (null_to_missing k m) rows selection) =
         imageValues (build_commit m rows selection)
     \<and> instances (build_commit (null_to_missing k m) rows selection) =
         [(null_to_missing k m)\<lparr>i_id := - 1\<rparr>]
     \<and> instances (build_commit m rows selection) = [m\<lparr>i_id := - 1\<rparr>]"
  by (simp add: buildRows_def rows_loop_null_to_missing [OF assms] build_commit_def Let_def
      commit_loop_lists null_to_missing_fields cong: option.case_cong if_cong)

theorem null_like_missing_witness:
  "buildRows id [ex_img1, null_to_missing 4 ex_img5] [ex_name, ex_color] Map.empty =
     buildRows id [ex_img1, ex_img5] [ex_name, ex_color] Map.empty
   \<and> map r_conflict (fst (buildRows id [ex_img1, ex_img5] [ex_name, ex_color] Map.empty)) = [False]
   \<and> imageValues (build_commit (null_to_missing 4 ex_img5)
         (fst (buildRows id [ex_img1, ex_img5] [ex_name, ex_color] Map.empty)) [1 \<mapsto> ''5'']) =
       [\<lparr>imv_propertyId = 1, imv_sha1 = ''h5'', imv_value = Prim (PStr ''A'')\<rparr>]
   \<and> imageValues (build_commit ex_img5
         (fst (buildRows id [ex_img1, ex_img5] [ex_name, ex_color] Map.empty)) [1 \<mapsto> ''5'']) =
       [\<lparr>imv_propertyId = 1, imv_sha1 = ''h5'', imv_value = Prim (PStr ''A'')\<rparr>]"
  using null_like_missing [of ex_img5 4 id "[ex_img1]" "[]" "[ex_name, ex_color]" Map.empty
      "fst (buildRows id [ex_img1, ex_img5] [ex_name, ex_color] Map.empty)" "[1 \<mapsto> ''5'']"]
  by (simp add: ex_defs eval_defs build_commit_def selected_option_def null_to_missing_def)

theorem null_copied_counterexample:
  "i_properties ex_img5 4 = Some (Prim PNull)
   \<and> buildRows id [null_to_missing 4 ex_img5] [ex_name, ex_color] Map.empty =
       buildRows id [ex_img5] [ex_name, ex_color] Map.empty
   \<and> build_commit (null_to_missing 4 ex_img5)
         (fst (buildRows id [null_to_missing 4 ex_img5] [ex_name, ex_color] Map.empty))
         (snd (buildRows id [null_to_missing 4 ex_img5] [ex_name, ex_color] Map.empty)) \<noteq>
       build_commit ex_img5
         (fst (buildRows id [ex_img5] [ex_name, ex_color] Map.empty))
         (snd (buildRows id [ex_img5] [ex_name, ex_color] Map.empty))"
proof (intro conjI)
  show "i_properties ex_img5 4 = Some (Prim PNull)" by (simp add: ex_defs)
  show "buildRows id [null_to_missing 4 ex_img5] [ex_name, ex_color] Map.empty =
       buildRows id [ex_img5] [ex_name, ex_color] Map.empty"
    by (simp add: ex_defs eval_defs null_to_missing_def)
  show "build_commit (null_to_missing 4 ex_img5)
         (fst (buildRows id [null_to_missing 4 ex_img5] [ex_name, ex_color] Map.empty))
         (snd (buildRows id [null_to_missing 4 ex_img5] [ex_name, ex_color] Map.empty)) \<noteq>
       build_commit ex_img5
         (fst (buildRows id [ex_img5] [ex_name, ex_color] Map.empty))
         (snd (buildRows id [ex_img5] [ex_name, ex_color] Map.empty))"
  proof
    assume "build_commit (null_to_missing 4 ex_img5)
         (fst (buildRows id [null_to_missing 4 ex_img5] [ex_name, ex_color] Map.empty))
         (snd (buildRows id [null_to_missing 4 ex_img5] [ex_name, ex_color] Map.empty)) =
       build_commit ex_img5
         (fst (buildRows id [ex_img5] [ex_name, ex_color] Map.empty))
         (snd (buildRows id [ex_img5] [ex_name, ex_color] Map.empty))"
    then have "map (\<lambda>i. i_properties i 4) (instances (build_commit (null_to_missing 4 ex_img5)
         (fst (buildRows id [null_to_missing 4 ex_img5] [ex_name, ex_color] Map.empty))
         (snd (buildRows id [null_to_missing 4 ex_img5] [ex_name, ex_color] Map.empty)))) =
       map (\<lambda>i. i_properties i 4) (instances (build_commit ex_img5
         (fst (buildRows id [ex_img5] [ex_name, ex_color] Map.empty))
         (snd (buildRows id [ex_img5] [ex_name, ex_color] Map.empty))))"
      by simp
    then show False
      by (simp add: build_commit_def Let_def commit_loop_lists null_to_missing_def ex_defs)
  qed
qed

section \<open>The submit guard\<close>

lemma images_merging: "images (st\<lparr>merging := b\<rparr>) = images st"
  by (simp add: images_def)

lemma baseImage_merging: "baseImage (st\<lparr>merging := b\<rparr>) = baseImage st"
  unfolding baseImage_def images_merging by simp

lemma images_confirmMerge_begin: "images (confirmMerge_begin st) = images st"
  by (cases "baseImage st") (simp_all add: confirmMerge_begin_def images_def)

lemma selectedImageId_confirmMerge_begin:
  "selectedImageId (confirmMerge_begin st) = selectedImageId st"
  by (cases "baseImage st") (simp_all add: confirmMerge_begin_def)

lemma baseImage_confirmMerge_begin: "baseImage (confirmMerge_begin st) = baseImage st"
  unfolding baseImage_def images_confirmMerge_begin selectedImageId_confirmMerge_begin by simp

lemma confirmMerge_begin_pending:
  "baseImage st = Some base \<Longrightarrow>
   pending (confirmMerge_begin st) =
     pending st @ [build_commit base (mergeRows st) (selectedOptions st)]"
  by (simp add: confirmMerge_begin_def)

text \<open>
  Claim C5, as amended. \<open>confirmMerge\<close> sets the flag \<^verbatim>\<open>merging\<close> when it hands a commit
  to \<^verbatim>\<open>data.sendCommit\<close> and clears it when that call has settled, and the confirm
  control carries the class \<^verbatim>\<open>disabled\<close> in between. The routine does not read the flag:
  with a base image its effect is the same whatever the flag is, so an invocation while
  a submit is in flight hands a further commit to \<^verbatim>\<open>data.sendCommit\<close>, and two
  invocations in a row leave two more submits in flight. Without a base image it does
  nothing.
\<close>

theorem confirmMerge_guard_unchecked:
  "(baseImage st = Some base \<longrightarrow>
      merging (confirmMerge_begin st) \<and>
      confirm_disabled (confirmMerge_begin st) \<and>
      pending (confirmMerge_begin st) =
        pending st @ [build_commit base (mergeRows st) (selectedOptions st)] \<and>
      confirmMerge_begin (st\<lparr>merging := b\<rparr>) = confirmMerge_begin st \<and>
      length (pending (confirmMerge_begin (confirmMerge_begin st))) = length (pending st) + 2)
   \<and> (baseImage st = None \<longrightarrow> confirmMerge_begin st = st)
   \<and> \<not> merging (confirmMerge_resume t ok st)"
proof (intro conjI impI)
  assume b: "baseImage st = Some base"
  show "merging (confirmMerge_begin st)"
    using b by (simp add: confirmMerge_begin_def)
  then show "confirm_disabled (confirmMerge_begin st)"
    by (simp add: confirm_disabled_def)
  show "pending (confirmMerge_begin st) =
        pending st @ [build_commit base (mergeRows st) (selectedOptions st)]"
    using b by (rule confirmMerge_begin_pending)
  show "confirmMerge_begin (st\<lparr>merging := b\<rparr>) = confirmMerge_begin st"
    using b by (simp add: confirmMerge_begin_def baseImage_merging)
  have "baseImage (confirmMerge_begin st) = Some base"
    using b by (simp add: baseImage_confirmMerge_begin)
  then have "length (pending (confirmMerge_begin (confirmMerge_begin st))) =
      Suc (length (pending (confirmMerge_begin st)))"
    by (simp add: confirmMerge_begin_pending)
  then show "length (pending (confirmMerge_begin (confirmMerge_begin st))) = length (pending st) + 2"
    using b by (simp add: confirmMerge_begin_pending)
next
  assume "baseImage st = None"
  then show "confirmMerge_begin st = st" by (simp add: confirmMerge_begin_def)
next
  show "\<not> merging (confirmMerge_resume t ok st)" by (simp add: confirmMerge_resume_def)
qed

theorem confirmMerge_guard_unchecked_witness:
  "baseImage ex_state = Some ex_img1
   \<and> merging (confirmMerge_begin ex_state)
   \<and> confirm_disabled (confirmMerge_begin ex_state)
   \<and> confirmMerge_begin (ex_state\<lparr>merging := True\<rparr>) = confirmMerge_begin ex_state
   \<and> length (pending (confirmMerge_begin (confirmMerge_begin ex_state))) = 2
   \<and> \<not> merging (confirmMerge_resume id False (confirmMerge_begin ex_state))"
proof -
  have b: "baseImage ex_state = Some ex_img1"
    by (simp add: baseImage_def images_def ex_state_def ex_defs)
  have p: "pending ex_state = []" by (simp add: ex_state_def)
  show ?thesis
    using b p confirmMerge_guard_unchecked [of ex_state ex_img1 True id False]
      confirmMerge_guard_unchecked [of "confirmMerge_begin ex_state" ex_img1 True id False]
    by simp
qed

theorem resubmit_counterexample:
  "merging (confirmMerge_begin ex_state)
   \<and> length (pending (confirmMerge_begin ex_state)) = 1
   \<and> length (pending (confirmMerge_begin (confirmMerge_begin ex_state))) = 2"
  by (simp add: confirmMerge_begin_def baseImage_def images_def ex_state_def ex_defs)

end
